theory Spec2Isabelle
  imports Main "HOL-Library.Sublist"
begin

section \<open>Strings and numbers of the host language\<close>

text \<open>
  A string is a list of characters. \<open>String.prototype.trim\<close> removes white space and line
  terminators from both ends; of these the tab, line feed, vertical tab, form feed, carriage
  return, space and no-break space are characters of the model.
\<close>

definition isWhiteSpace :: "char \<Rightarrow> bool" where
  "isWhiteSpace c \<longleftrightarrow>
     c \<in> set [CHR 0x09, CHR 0x0A, CHR 0x0B, CHR 0x0C, CHR 0x0D, CHR 0x20, CHR 0xA0]"

definition trim :: "string \<Rightarrow> string" where
  "trim s = rev (dropWhile isWhiteSpace (rev (dropWhile isWhiteSpace s)))"

text \<open>Number to string conversion, for integers: decimal digits, a minus sign when negative.\<close>

definition digit_char :: "nat \<Rightarrow> char" where
  "digit_char d = ''0123456789'' ! (d mod 10)"

fun toString_nat :: "nat \<Rightarrow> string" where
  "toString_nat n =
     (if n < 10 then [digit_char n] else toString_nat (n div 10) @ [digit_char (n mod 10)])"

declare toString_nat.simps [simp del]

definition toString :: "int \<Rightarrow> string" where
  "toString i = (if i < 0 then CHR ''-'' # toString_nat (nat (- i)) else toString_nat (nat i))"

section \<open>types.ts\<close>

datatype task_status = Incomplete | Complete

text \<open>
  \<open>interface Task\<close>. The field \<open>id\<close> is named \<open>task_id\<close> here; \<open>description\<close> is
  \<open>string | null\<close>.
\<close>

record Task =
  task_id :: int
  title :: string
  description :: "string option"
  status :: task_status
  user_id :: string
  created_at :: string
  updated_at :: string

text \<open>\<open>interface TaskCreate\<close>: \<open>description\<close> is optional.\<close>

record TaskCreate =
  new_title :: string
  new_description :: "string option"

section \<open>lib/api.ts\<close>

text \<open>
  A request as \<open>fetch\<close> receives it: the verb, the path below \<open>API_BASE_URL\<close> and the
  JSON body. The headers are the same for every call (\<open>getAuthHeaders\<close> returns the empty
  object) and are left out.
\<close>

datatype http_verb = GET | POST | PUT | DELETE | PATCH

datatype request_body =
    NoBody
  | TaskCreateBody TaskCreate
  | ChatBody string string  \<comment> \<open>\<open>{ message, userId }\<close>\<close>

record http_request =
  verb :: http_verb
  path :: string
  body :: request_body

text \<open>
  What \<open>await fetch(...)\<close> gives: the promise is rejected (\<open>NetworkError\<close>), or there is
  a response with a status code and a body, which \<open>response.json()\<close> parses
  (\<open>None\<close> when the body is not JSON of the expected shape, and \<open>json()\<close> rejects).
\<close>

datatype 'a fetch_result = NetworkError | Response nat "'a option"

definition response_ok :: "nat \<Rightarrow> bool" where
  "response_ok code \<longleftrightarrow> 200 \<le> code \<and> code \<le> 299"

text \<open>The error an API function throws: the one it raises itself, or the one it rethrows.\<close>

datatype api_error = Failed string | FetchRejected | JsonRejected

definition parse_response :: "string \<Rightarrow> 'a fetch_result \<Rightarrow> api_error + 'a" where
  "parse_response what r =
     (case r of
        NetworkError \<Rightarrow> Inl FetchRejected
      | Response code b \<Rightarrow>
          if \<not> response_ok code then Inl (Failed (what @ toString_nat code))
          else (case b of None \<Rightarrow> Inl JsonRejected | Some v \<Rightarrow> Inr v))"



definition createTask_request :: "TaskCreate \<Rightarrow> http_request" where
  "createTask_request taskData =
     \<lparr>verb = POST, path = ''/api/tasks'', body = TaskCreateBody taskData\<rparr>"

definition createTask :: "(http_request \<Rightarrow> Task fetch_result) \<Rightarrow> TaskCreate \<Rightarrow> api_error + Task" where
  "createTask fetch taskData =
     parse_response ''Failed to create task: '' (fetch (createTask_request taskData))"

definition deleteTask_request :: "int \<Rightarrow> http_request" where
  "deleteTask_request i = \<lparr>verb = DELETE, path = ''/api/tasks/'' @ toString i, body = NoBody\<rparr>"

text \<open>\<open>deleteTask\<close> does not read the body of the response.\<close>

definition deleteTask :: "(http_request \<Rightarrow> unit fetch_result) \<Rightarrow> int \<Rightarrow> api_error + unit" where
  "deleteTask fetch i =
     (case fetch (deleteTask_request i) of
        NetworkError \<Rightarrow> Inl FetchRejected
      | Response code b \<Rightarrow>
          if \<not> response_ok code then Inl (Failed (''Failed to delete task: '' @ toString_nat code))
          else Inr ())"

definition toggleTaskStatus_request :: "int \<Rightarrow> http_request" where
  "toggleTaskStatus_request i =
     \<lparr>verb = PATCH, path = ''/api/tasks/'' @ toString i @ ''/complete'', body = NoBody\<rparr>"

definition toggleTaskStatus :: "(http_request \<Rightarrow> Task fetch_result) \<Rightarrow> int \<Rightarrow> api_error + Task" where
  "toggleTaskStatus fetch i =
     parse_response ''Failed to toggle task status: '' (fetch (toggleTaskStatus_request i))"

text \<open>
  \<open>userId || 'mock-user-uuid'\<close>: the left operand unless it is falsy, that is undefined
  or the empty string.
\<close>

definition forwarded_userId :: "string option \<Rightarrow> string" where
  "forwarded_userId userId =
     (case userId of None \<Rightarrow> ''mock-user-uuid''
      | Some u \<Rightarrow> if u = [] then ''mock-user-uuid'' else u)"

definition sendMessage_request :: "string \<Rightarrow> string option \<Rightarrow> http_request" where
  "sendMessage_request message userId =
     \<lparr>verb = POST, path = ''/api/chat'', body = ChatBody message (forwarded_userId userId)\<rparr>"

text \<open>The value \<open>sendMessage\<close> resolves to is \<open>{ response: string }\<close>.\<close>

record chat_reply =
  response :: string

definition sendMessage ::
  "(http_request \<Rightarrow> chat_reply fetch_result) \<Rightarrow> string \<Rightarrow> string option \<Rightarrow> api_error + chat_reply" where
  "sendMessage fetch message userId =
     parse_response ''Failed to send message: '' (fetch (sendMessage_request message userId))"

section \<open>app/page.tsx: the task page\<close>

text \<open>
  The state of \<open>Home\<close>: its four \<open>useState\<close> cells. A handler is modelled as one run with
  no other handler in between: it reads the state, makes its API call (whose outcome is what
  \<open>fetch\<close> answers) and applies its updates. Beside the new state a handler returns the
  requests it sent, in order.
\<close>

record page_state =
  tasks :: "Task list"
  newTask :: TaskCreate
  loading :: bool
  error :: "string option"



definition Home_handleSubmit ::
  "(http_request \<Rightarrow> Task fetch_result) \<Rightarrow> page_state \<Rightarrow> page_state \<times> http_request list" where
  "Home_handleSubmit fetch st =
     (if trim (new_title (newTask st)) = [] then (st\<lparr>error := Some ''Title is required''\<rparr>, [])
      else
        (case createTask fetch (newTask st) of
           Inr createdTask \<Rightarrow>
             (st\<lparr>tasks := createdTask # tasks st,
                 newTask := \<lparr>new_title = [], new_description = Some []\<rparr>,
                 error := None\<rparr>,
              [createTask_request (newTask st)])
         | Inl err \<Rightarrow>
             (st\<lparr>error := Some ''Failed to create task. Please try again.''\<rparr>,
              [createTask_request (newTask st)])))"

definition handleToggleStatus ::
  "(http_request \<Rightarrow> Task fetch_result) \<Rightarrow> int \<Rightarrow> page_state \<Rightarrow> page_state \<times> http_request list" where
  "handleToggleStatus fetch i st =
     (case toggleTaskStatus fetch i of
        Inr updatedTask \<Rightarrow>
          (st\<lparr>tasks := map (\<lambda>task. if task_id task = i then updatedTask else task) (tasks st)\<rparr>,
           [toggleTaskStatus_request i])
      | Inl err \<Rightarrow>
          (st\<lparr>error := Some ''Failed to update task status. Please try again.''\<rparr>,
           [toggleTaskStatus_request i]))"

definition handleDelete ::
  "(http_request \<Rightarrow> unit fetch_result) \<Rightarrow> int \<Rightarrow> page_state \<Rightarrow> page_state \<times> http_request list" where
  "handleDelete fetch i st =
     (case deleteTask fetch i of
        Inr u \<Rightarrow>
          (st\<lparr>tasks := filter (\<lambda>task. task_id task \<noteq> i) (tasks st)\<rparr>, [deleteTask_request i])
      | Inl err \<Rightarrow>
          (st\<lparr>error := Some ''Failed to delete task. Please try again.''\<rparr>,
           [deleteTask_request i]))"

section \<open>components/ChatInterface.tsx: the chat panel\<close>

datatype role = User | Assistant

text \<open>
  \<open>interface Message\<close>. The field \<open>id\<close> is named \<open>message_id\<close> here. Both \<open>id\<close> and
  \<open>timestamp\<close> are read from the clock when the message is built; the model takes the two
  reads of one message as the same instant, in milliseconds.
\<close>

record Message =
  message_id :: string
  content :: string
  role :: role
  timestamp :: nat

text \<open>The three \<open>useState\<close> cells of \<open>ChatInterface\<close>; \<open>userId\<close> is its only prop.\<close>

record chat_state =
  inputMessage :: string
  messages :: "Message list"
  isLoading :: bool

definition initial_chat_state :: chat_state where
  "initial_chat_state = \<lparr>inputMessage = [], messages = [], isLoading = False\<rparr>"

text \<open>\<open>setMessages(prev => [...prev, m])\<close>, the only way the code updates the transcript.\<close>

definition append_message :: "Message \<Rightarrow> chat_state \<Rightarrow> chat_state" where
  "append_message m st = st\<lparr>messages := messages st @ [m]\<rparr>"

definition userMessage :: "string \<Rightarrow> nat \<Rightarrow> Message" where
  "userMessage txt now =
     \<lparr>message_id = toString_nat now, content = txt, role = User, timestamp = now\<rparr>"

definition aiMessage :: "chat_reply \<Rightarrow> nat \<Rightarrow> Message" where
  "aiMessage data now =
     \<lparr>message_id = toString_nat now, content = response data, role = Assistant, timestamp = now\<rparr>"

definition errorMessage :: "nat \<Rightarrow> Message" where
  "errorMessage now =
     \<lparr>message_id = toString_nat now,
      content = ''Sorry, there was an error processing your request. Please try again.'',
      role = Assistant, timestamp = now\<rparr>"

text \<open>
  \<open>handleSubmit\<close> up to its \<open>await\<close>: the guard, the user's message, the cleared input,
  the loading flag, and the request that is sent (none when the guard returns).
\<close>

definition handleSubmit_begin ::
  "string option \<Rightarrow> nat \<Rightarrow> chat_state \<Rightarrow> chat_state \<times> http_request option" where
  "handleSubmit_begin userId now st =
     (if trim (inputMessage st) = [] \<or> isLoading st then (st, None)
      else
        ((append_message (userMessage (inputMessage st) now) st)
           \<lparr>inputMessage := [], isLoading := True\<rparr>,
         Some (sendMessage_request (inputMessage st) userId)))"

text \<open>
  \<open>handleSubmit\<close> from the moment \<open>sendMessage\<close> settles: the \<open>try\<close> branch or the
  \<open>catch\<close> branch, then \<open>finally\<close>.
\<close>

definition handleSubmit_resume :: "api_error + chat_reply \<Rightarrow> nat \<Rightarrow> chat_state \<Rightarrow> chat_state" where
  "handleSubmit_resume outcome now st =
     (case outcome of
        Inr data \<Rightarrow> append_message (aiMessage data now) st
      | Inl err \<Rightarrow> append_message (errorMessage now) st)
     \<lparr>isLoading := False\<rparr>"

text \<open>
  One whole run of \<open>handleSubmit\<close> with nothing in between: \<open>t1\<close> is the clock at the
  submission, \<open>t2\<close> the clock when the call has settled.
\<close>

definition ChatInterface_handleSubmit ::
  "(http_request \<Rightarrow> chat_reply fetch_result) \<Rightarrow> string option \<Rightarrow> nat \<Rightarrow> nat \<Rightarrow> chat_state \<Rightarrow> chat_state" where
  "ChatInterface_handleSubmit fetch userId t1 t2 st =
     (case handleSubmit_begin userId t1 st of
        (st1, None) \<Rightarrow> st1
      | (st1, Some req) \<Rightarrow>
          handleSubmit_resume (sendMessage fetch (inputMessage st) userId) t2 st1)"

subsection \<open>The panel as a transition system\<close>

text \<open>
  What can happen to a mounted panel: the user edits the input (the \<open>input\<close> element is
  \<open>disabled\<close> while \<open>isLoading\<close>, so no \<open>onChange\<close> arrives then), the form is submitted,
  or the call in flight settles. A configuration is the component's state and the requests
  that are in flight. Every handler sees the state of the latest render.
\<close>

datatype chat_event =
    Change string
  | Submit nat
  | Settle "api_error + chat_reply" nat

record chat_config =
  ui :: chat_state
  inflight :: "http_request list"

definition initial_chat_config :: chat_config where
  "initial_chat_config = \<lparr>ui = initial_chat_state, inflight = []\<rparr>"

fun chat_step :: "string option \<Rightarrow> chat_config \<Rightarrow> chat_event \<Rightarrow> chat_config" where
  "chat_step userId c (Change v) =
     (if isLoading (ui c) then c else c\<lparr>ui := (ui c)\<lparr>inputMessage := v\<rparr>\<rparr>)"
| "chat_step userId c (Submit now) =
     (case handleSubmit_begin userId now (ui c) of
        (st, None) \<Rightarrow> c\<lparr>ui := st\<rparr>
      | (st, Some req) \<Rightarrow> \<lparr>ui = st, inflight = inflight c @ [req]\<rparr>)"
| "chat_step userId c (Settle outcome now) =
     (case inflight c of
        [] \<Rightarrow> c
      | req # reqs \<Rightarrow> \<lparr>ui = handleSubmit_resume outcome now (ui c), inflight = reqs\<rparr>)"

definition chat_run :: "string option \<Rightarrow> chat_config \<Rightarrow> chat_event list \<Rightarrow> chat_config" where
  "chat_run userId c evs = foldl (chat_step userId) c evs"

inductive reachable :: "string option \<Rightarrow> chat_config \<Rightarrow> bool" for userId where
  reachable_init: "reachable userId initial_chat_config"
| reachable_step: "reachable userId c \<Longrightarrow> reachable userId (chat_step userId c e)"

section \<open>The interpreter behind the chat endpoint\<close>

text \<open>
  The panel posts each utterance to \<open>/api/chat\<close>. The interpreter that answers there
  (intent classifier, slot extractor, reference resolver) is
  backend code that is not among the sources, so the definitions of this section follow the
  specification's words.
\<close>

subsection \<open>Text matching\<close>

text \<open>
  Modelled from the spec: the matching of trigger phrases and titles, which the missing
  classifier and resolver do on text without regard to case ("Show my tasks" is a ListTasks
  utterance by the trigger "show"; titles are compared case-insensitively).
\<close>

definition to_lower :: "char \<Rightarrow> char" where
  "to_lower c =
     (case map_of (zip ''ABCDEFGHIJKLMNOPQRSTUVWXYZ'' ''abcdefghijklmnopqrstuvwxyz'') c of
        Some l \<Rightarrow> l
      | None \<Rightarrow> c)"

definition lower :: "string \<Rightarrow> string" where
  "lower s = map to_lower s"

text \<open>
  Modelled from the spec: where a phrase occurs in a text. \<open>after_match p s\<close> is the text
  that follows the first occurrence of \<open>p\<close> in \<open>s\<close>.
\<close>

fun after_match :: "string \<Rightarrow> string \<Rightarrow> string option" where
  "after_match p [] = (if p = [] then Some [] else None)"
| "after_match p (c # cs) =
     (if prefix p (c # cs) then Some (drop (length p) (c # cs)) else after_match p cs)"

definition contains :: "string \<Rightarrow> string \<Rightarrow> bool" where
  "contains p s \<longleftrightarrow> after_match p s \<noteq> None"

subsection \<open>Intent classifier\<close>

datatype Intent = AddTask | ListTasks | CompleteTask | Unclear

text \<open>
  Modelled from the spec: a trigger phrase of the missing classifier's rule table. A phrase
  with a gap, as "mark ... complete", is the list of its parts, which must occur in this
  order; a plain phrase is a list of one part. Triggers are written in lower case.
\<close>

type_synonym trigger = "string list"

fun trigger_matches :: "trigger \<Rightarrow> string \<Rightarrow> bool" where
  "trigger_matches [] s = True"
| "trigger_matches (p # ps) s =
     (case after_match p s of None \<Rightarrow> False | Some rest \<Rightarrow> trigger_matches ps rest)"

text \<open>
  Modelled from the spec: the rule table of the missing classifier, which the specification
  treats as configuration data: the trigger phrases of each of the three categories.
\<close>

record rule_table =
  complete_rules :: "trigger list"
  add_rules :: "trigger list"
  list_rules :: "trigger list"

text \<open>Modelled from the spec: the trigger phrases that section 4.1 gives as examples.\<close>

definition example_rules :: rule_table where
  "example_rules =
     \<lparr>complete_rules = [[''finished''], [''done''], [''mark'', ''complete'']],
      add_rules = [[''remind me''], [''add a task''], [''need to'']],
      list_rules = [[''show''], [''what's on my list''], [''what do i have'']]\<rparr>"

definition matches_any :: "trigger list \<Rightarrow> string \<Rightarrow> bool" where
  "matches_any ts u = list_ex (\<lambda>t. trigger_matches t (lower u)) ts"

text \<open>
  Modelled from the spec: \<open>classify(utterance) -> Intent\<close> of the missing classifier. The
  categories are tried in the fixed order CompleteTask, AddTask, ListTasks, and the first one
  with a matching rule wins; with no match the intent is Unclear. (Within one category every
  rule names the same intent, so the tie-break by the longest matched phrase does not change
  the result.)
\<close>

definition classify :: "rule_table \<Rightarrow> string \<Rightarrow> Intent" where
  "classify rt u =
     (if matches_any (complete_rules rt) u then CompleteTask
      else if matches_any (add_rules rt) u then AddTask
      else if matches_any (list_rules rt) u then ListTasks
      else Unclear)"

subsection \<open>Task snapshot\<close>

text \<open>
  Modelled from the spec: a task record as the tools of the missing backend return it
  (\<open>{id, title, description, status}\<close>); a snapshot is an ordered sequence of them.
\<close>

record task_record =
  rec_id :: int
  rec_title :: string
  rec_description :: "string option"
  rec_status :: task_status

type_synonym TaskSnapshot = "task_record list"

text \<open>
  Modelled from the spec: the status scope of a positional mention of the missing resolver
  ("first incomplete task"): all tasks, the incomplete ones or the complete ones.
\<close>

datatype status_filter = FilterAll | FilterIncomplete | FilterComplete

definition passes :: "status_filter \<Rightarrow> task_record \<Rightarrow> bool" where
  "passes f t =
     (case f of
        FilterAll \<Rightarrow> True
      | FilterIncomplete \<Rightarrow> rec_status t = Incomplete
      | FilterComplete \<Rightarrow> rec_status t = Complete)"

subsection \<open>Reference expressions and their resolution\<close>

text \<open>
  Modelled from the spec: the data of the missing resolver. An ordinal is a position counted
  from one ("first", "second") or the last position.
\<close>

datatype ordinal = Nth nat | Last

datatype ReferenceExpression =
    ExplicitId int
  | TitleMention string
  | PositionalMention ordinal status_filter

datatype ResolutionResult = Resolved int | NotFound | Ambiguous "int list"

text \<open>
  Modelled from the spec: \<open>resolve(expr, snapshot) -> ResolutionResult\<close> of the missing
  resolver, section 4.3.
  \<^item> ExplicitId: the snapshot entries of this id; Resolved if exactly one, else NotFound.
  \<^item> TitleMention: the entries whose title is the mention, case-insensitively; if there are
    none, the entries whose title contains it. One candidate is Resolved, none NotFound, more
    than one Ambiguous with the candidates' ids.
  \<^item> PositionalMention: the entry at the position among those in scope; NotFound when the
    position is out of range.
\<close>

fun resolve :: "ReferenceExpression \<Rightarrow> TaskSnapshot \<Rightarrow> ResolutionResult" where
  "resolve (ExplicitId n) snap =
     (case filter (\<lambda>t. rec_id t = n) snap of
        [t] \<Rightarrow> Resolved (rec_id t)
      | _ \<Rightarrow> NotFound)"
| "resolve (TitleMention m) snap =
     (let exact = filter (\<lambda>t. lower (rec_title t) = lower m) snap;
          cands = (if exact = [] then filter (\<lambda>t. contains (lower m) (lower (rec_title t))) snap
                   else exact)
      in case cands of
           [] \<Rightarrow> NotFound
         | [t] \<Rightarrow> Resolved (rec_id t)
         | _ \<Rightarrow> Ambiguous (map rec_id cands))"
| "resolve (PositionalMention k scope) snap =
     (let xs = filter (passes scope) snap
      in case k of
           Nth i \<Rightarrow> if 1 \<le> i \<and> i \<le> length xs then Resolved (rec_id (xs ! (i - 1))) else NotFound
         | Last \<Rightarrow> if xs = [] then NotFound else Resolved (rec_id (last xs)))"

subsection \<open>Slot extraction for CompleteTask\<close>

definition is_digit :: "char \<Rightarrow> bool" where
  "is_digit c \<longleftrightarrow> c \<in> set ''0123456789''"

definition digit_value :: "char \<Rightarrow> int" where
  "digit_value c =
     (case map_of (zip ''0123456789'' [0, 1, 2, 3, 4, 5, 6, 7, 8, 9]) c of
        Some d \<Rightarrow> d
      | None \<Rightarrow> 0)"

definition digits_value :: "string \<Rightarrow> int" where
  "digits_value ds = foldl (\<lambda>a c. 10 * a + digit_value c) 0 ds"

text \<open>
  Modelled from the spec: the explicit-id tokens of the missing slot extractor, section 4.2:
  \<open>#<digits>\<close> or \<open>task <digits>\<close>. \<open>number_at s\<close> reads the digits \<open>s\<close> begins with,
  \<open>token_at s\<close> the token that begins \<open>s\<close>, and \<open>explicit_id_token s\<close> the first token
  of \<open>s\<close> from the left.
\<close>

definition number_at :: "string \<Rightarrow> int option" where
  "number_at s =
     (let ds = takeWhile is_digit s in if ds = [] then None else Some (digits_value ds))"

definition token_at :: "string \<Rightarrow> int option" where
  "token_at s =
     (if prefix ''#'' s then number_at (drop 1 s)
      else if prefix ''task '' s then number_at (drop 5 s)
      else None)"

fun explicit_id_token :: "string \<Rightarrow> int option" where
  "explicit_id_token [] = None"
| "explicit_id_token (c # cs) =
     (case token_at (c # cs) of
        Some n \<Rightarrow> Some n
      | None \<Rightarrow> explicit_id_token cs)"

datatype extract_error = IncompleteSlots

text \<open>
  Modelled from the spec: the reference expression the missing slot extractor builds for a
  CompleteTask utterance. An explicit-id token becomes ExplicitId. What the specification says
  of the other two kinds (a quoted or clearly nominal phrase, ordinal words) does not fix a
  function, so their extraction is the parameter \<open>other\<close>; with no reference at all the
  extraction fails with IncompleteSlots.
\<close>

definition extract_reference ::
  "(string \<Rightarrow> ReferenceExpression option) \<Rightarrow> string \<Rightarrow> extract_error + ReferenceExpression" where
  "extract_reference other u =
     (case explicit_id_token (lower u) of
        Some n \<Rightarrow> Inr (ExplicitId n)
      | None \<Rightarrow> (case other u of Some e \<Rightarrow> Inr e | None \<Rightarrow> Inl IncompleteSlots))"

text \<open>
  Modelled from the spec: CompleteTask reference resolution of an utterance against the
  current snapshot: extraction, then \<open>resolve\<close>.
\<close>

definition resolve_utterance ::
  "(string \<Rightarrow> ReferenceExpression option) \<Rightarrow> string \<Rightarrow> TaskSnapshot
     \<Rightarrow> extract_error + ResolutionResult" where
  "resolve_utterance other u snap =
     (case extract_reference other u of
        Inl e \<Rightarrow> Inl e
      | Inr r \<Rightarrow> Inr (resolve r snap))"

section \<open>Notions used in the statements, and example data\<close>

text \<open>The positions at which two lists of the same length differ.\<close>

definition changed_positions :: "'a list \<Rightarrow> 'a list \<Rightarrow> nat list" where
  "changed_positions xs ys = filter (\<lambda>k. xs ! k \<noteq> ys ! k) [0..<length xs]"

text \<open>The assistant's messages of a transcript.\<close>

definition assistant_messages :: "Message list \<Rightarrow> Message list" where
  "assistant_messages ms = filter (\<lambda>m. role m = Assistant) ms"

text \<open>An environment in which every request gets the same answer.\<close>

definition fetch_always :: "'a fetch_result \<Rightarrow> http_request \<Rightarrow> 'a fetch_result" where
  "fetch_always r req = r"

text \<open>Example tasks, page states, panel states and snapshot records.\<close>

definition example_task :: "int \<Rightarrow> string \<Rightarrow> task_status \<Rightarrow> Task" where
  "example_task i ttl s =
     \<lparr>task_id = i, title = ttl, description = None, status = s, user_id = ''mock-user-uuid'',
      created_at = ''2024-01-01T00:00:00Z'', updated_at = ''2024-01-01T00:00:00Z''\<rparr>"

definition example_page :: "Task list \<Rightarrow> string \<Rightarrow> page_state" where
  "example_page ts ttl =
     \<lparr>tasks = ts, newTask = \<lparr>new_title = ttl, new_description = Some []\<rparr>, loading = False,
      error = None\<rparr>"

definition example_chat :: "string \<Rightarrow> Message list \<Rightarrow> bool \<Rightarrow> chat_state" where
  "example_chat txt ms busy = \<lparr>inputMessage = txt, messages = ms, isLoading = busy\<rparr>"

definition example_record :: "int \<Rightarrow> string \<Rightarrow> task_record" where
  "example_record i ttl =
     \<lparr>rec_id = i, rec_title = ttl, rec_description = None, rec_status = Incomplete\<rparr>"

text \<open>An extractor of title and positional references that finds none.\<close>

definition no_other_reference :: "string \<Rightarrow> ReferenceExpression option" where
  "no_other_reference u = None"

section \<open>The task page\<close>

text \<open>
  Claim C1. A submission of the add-task form whose title is empty after trimming ends in the
  validation error "Title is required" and sends no request; every request the handler sends
  is the \<open>createTask\<close> request of a title that is non-empty after trimming.
\<close>

theorem Home_handleSubmit_validates_title:
  "(trim (new_title (newTask st)) = [] \<longrightarrow>
      Home_handleSubmit fetch st = (st\<lparr>error := Some ''Title is required''\<rparr>, [])) \<and>
   (\<forall>req \<in> set (snd (Home_handleSubmit fetch st)).
      req = createTask_request (newTask st) \<and> trim (new_title (newTask st)) \<noteq> [])"
  by (auto simp: Home_handleSubmit_def split: sum.splits)

theorem Home_handleSubmit_validates_title_witness:
  "trim (new_title (newTask (example_page [] ''   ''))) = [] \<and>
   Home_handleSubmit (fetch_always NetworkError) (example_page [] ''   '') =
     ((example_page [] ''   '')\<lparr>error := Some ''Title is required''\<rparr>, []) \<and>
   snd (Home_handleSubmit (fetch_always (Response 201 (Some (example_task 1 '' milk '' Incomplete))))
          (example_page [] '' milk '')) =
     [createTask_request \<lparr>new_title = '' milk '', new_description = Some []\<rparr>] \<and>
   trim '' milk '' = ''milk''"
  using Home_handleSubmit_validates_title
          [of "example_page [] ''   ''" "fetch_always NetworkError"]
        Home_handleSubmit_validates_title
          [of "example_page [] '' milk ''"
              "fetch_always (Response 201 (Some (example_task 1 '' milk '' Incomplete)))"]
  by (simp add: example_page_def trim_def isWhiteSpace_def Home_handleSubmit_def createTask_def
        parse_response_def fetch_always_def response_ok_def)

lemma changed_positions_le_one:
  assumes "distinct (map f xs)"
    and "\<And>k. k < length xs \<Longrightarrow> xs ! k \<noteq> ys ! k \<Longrightarrow> f (xs ! k) = i"
  shows "length (changed_positions xs ys) \<le> 1"
proof -
  let ?S = "set (changed_positions xs ys)"
  have d: "distinct (changed_positions xs ys)"
    by (simp add: changed_positions_def)
  have "\<And>a b. a \<in> ?S \<Longrightarrow> b \<in> ?S \<Longrightarrow> a = b"
  proof -
    fix a b assume "a \<in> ?S" "b \<in> ?S"
    then have a: "a < length xs" "f (xs ! a) = i" and b: "b < length xs" "f (xs ! b) = i"
      using assms(2) by (auto simp: changed_positions_def)
    then have "map f xs ! a = map f xs ! b" by simp
    moreover from assms(1) a(1) b(1) have "(map f xs ! a = map f xs ! b) = (a = b)"
      by (intro nth_eq_iff_index_eq) simp_all
    ultimately show "a = b" by simp
  qed
  then have "card ?S \<le> 1"
    by (metis card_le_Suc0_iff_eq List.finite_set One_nat_def)
  with d show ?thesis
    by (simp add: distinct_card)
qed

text \<open>
  Claim C8. (amended) Toggling replaces the entries whose id matches by the task the server
  answered, and only these: every task with another id is unchanged, the length and the order
  of the list are preserved, the list is unchanged when the call fails, and at most one entry
  changes when the ids of the list are distinct.
\<close>

theorem handleToggleStatus_frame:
  "length (tasks (fst (handleToggleStatus fetch i st))) = length (tasks st) \<and>
   (\<forall>k < length (tasks st). task_id (tasks st ! k) \<noteq> i \<longrightarrow>
      tasks (fst (handleToggleStatus fetch i st)) ! k = tasks st ! k) \<and>
   (\<forall>u. toggleTaskStatus fetch i = Inr u \<longrightarrow>
      (\<forall>k < length (tasks st). task_id (tasks st ! k) = i \<longrightarrow>
         tasks (fst (handleToggleStatus fetch i st)) ! k = u)) \<and>
   (\<forall>e. toggleTaskStatus fetch i = Inl e \<longrightarrow>
      tasks (fst (handleToggleStatus fetch i st)) = tasks st) \<and>
   (distinct (map task_id (tasks st)) \<longrightarrow>
      length (changed_positions (tasks st) (tasks (fst (handleToggleStatus fetch i st)))) \<le> 1)"
proof -
  let ?ts' = "tasks (fst (handleToggleStatus fetch i st))"
  have len: "length ?ts' = length (tasks st)"
    by (simp add: handleToggleStatus_def split: sum.splits)
  have frame: "\<And>k. k < length (tasks st) \<Longrightarrow> task_id (tasks st ! k) \<noteq> i \<Longrightarrow> ?ts' ! k = tasks st ! k"
    by (simp add: handleToggleStatus_def split: sum.splits)
  have repl: "\<And>u k. toggleTaskStatus fetch i = Inr u \<Longrightarrow> k < length (tasks st) \<Longrightarrow>
      task_id (tasks st ! k) = i \<Longrightarrow> ?ts' ! k = u"
    by (simp add: handleToggleStatus_def)
  have fail: "\<And>e. toggleTaskStatus fetch i = Inl e \<Longrightarrow> ?ts' = tasks st"
    by (simp add: handleToggleStatus_def)
  have one: "length (changed_positions (tasks st) ?ts') \<le> 1"
    if "distinct (map task_id (tasks st))"
  proof (rule changed_positions_le_one [where f = task_id and i = i])
    show "distinct (map task_id (tasks st))" by (fact that)
  next
    fix k assume "k < length (tasks st)" "tasks st ! k \<noteq> ?ts' ! k"
    then show "task_id (tasks st ! k) = i" using frame by metis
  qed
  from len frame repl fail one show ?thesis by blast
qed

theorem handleToggleStatus_frame_witness:
  "distinct (map task_id [example_task 1 ''a'' Incomplete, example_task 2 ''b'' Incomplete]) \<and>
   toggleTaskStatus (fetch_always (Response 200 (Some (example_task 2 ''b'' Complete)))) 2 =
     Inr (example_task 2 ''b'' Complete) \<and>
   tasks (fst (handleToggleStatus (fetch_always (Response 200 (Some (example_task 2 ''b'' Complete)))) 2
                (example_page [example_task 1 ''a'' Incomplete, example_task 2 ''b'' Incomplete] []))) =
     [example_task 1 ''a'' Incomplete, example_task 2 ''b'' Complete] \<and>
   length (changed_positions [example_task 1 ''a'' Incomplete, example_task 2 ''b'' Incomplete]
            (tasks (fst (handleToggleStatus
                     (fetch_always (Response 200 (Some (example_task 2 ''b'' Complete)))) 2
                     (example_page [example_task 1 ''a'' Incomplete, example_task 2 ''b'' Incomplete] []))))) \<le> 1"
  using handleToggleStatus_frame
          [of "fetch_always (Response 200 (Some (example_task 2 ''b'' Complete)))" 2
              "example_page [example_task 1 ''a'' Incomplete, example_task 2 ''b'' Incomplete] []"]
  by (simp add: example_page_def example_task_def handleToggleStatus_def toggleTaskStatus_def
        parse_response_def fetch_always_def response_ok_def)

text \<open>
  As the claim was written, toggling replaces at most a single entry. On a list in which two
  tasks have the id that is toggled, both entries are replaced.
\<close>

theorem handleToggleStatus_single_entry_counterexample:
  "tasks (fst (handleToggleStatus (fetch_always (Response 200 (Some (example_task 1 ''a'' Complete)))) 1
                (example_page [example_task 1 ''a'' Incomplete, example_task 1 ''b'' Incomplete] []))) =
     [example_task 1 ''a'' Complete, example_task 1 ''a'' Complete] \<and>
   changed_positions [example_task 1 ''a'' Incomplete, example_task 1 ''b'' Incomplete]
     (tasks (fst (handleToggleStatus (fetch_always (Response 200 (Some (example_task 1 ''a'' Complete)))) 1
                (example_page [example_task 1 ''a'' Incomplete, example_task 1 ''b'' Incomplete] [])))) =
     [0, 1]"
  by (simp add: example_page_def example_task_def handleToggleStatus_def toggleTaskStatus_def
        parse_response_def fetch_always_def response_ok_def changed_positions_def upt_rec)

text \<open>
  Claim C9. A successful delete leaves the original list without every task of the given id, in
  the original order; a failed delete leaves the list unchanged.
\<close>

theorem handleDelete_result:
  "(\<forall>u. deleteTask fetch i = Inr u \<longrightarrow>
      tasks (fst (handleDelete fetch i st)) = filter (\<lambda>task. task_id task \<noteq> i) (tasks st)) \<and>
   (\<forall>e. deleteTask fetch i = Inl e \<longrightarrow> tasks (fst (handleDelete fetch i st)) = tasks st)"
  by (simp add: handleDelete_def)

theorem handleDelete_result_witness:
  "deleteTask (fetch_always (Response 204 None)) 1 = Inr () \<and>
   tasks (fst (handleDelete (fetch_always (Response 204 None)) 1
                (example_page [example_task 1 ''a'' Incomplete, example_task 2 ''b'' Incomplete,
                               example_task 1 ''c'' Complete] []))) =
     [example_task 2 ''b'' Incomplete] \<and>
   deleteTask (fetch_always (Response 404 None)) 1 = Inl (Failed ''Failed to delete task: 404'') \<and>
   tasks (fst (handleDelete (fetch_always (Response 404 None)) 1
                (example_page [example_task 1 ''a'' Incomplete, example_task 2 ''b'' Incomplete] []))) =
     [example_task 1 ''a'' Incomplete, example_task 2 ''b'' Incomplete]"
  using handleDelete_result
          [of "fetch_always (Response 204 None)" 1
              "example_page [example_task 1 ''a'' Incomplete, example_task 2 ''b'' Incomplete,
                             example_task 1 ''c'' Complete] []"]
        handleDelete_result
          [of "fetch_always (Response 404 None)" 1
              "example_page [example_task 1 ''a'' Incomplete, example_task 2 ''b'' Incomplete] []"]
  by (simp add: example_page_def example_task_def deleteTask_def fetch_always_def response_ok_def
        toString_nat.simps digit_char_def)



section \<open>The chat panel\<close>

text \<open>
  In every configuration the panel can reach, the loading flag says whether a request is in
  flight, at most one is, and the input is empty while one is.
\<close>

lemma chat_step_invariant:
  assumes "(isLoading (ui c) \<longleftrightarrow> inflight c \<noteq> []) \<and> length (inflight c) \<le> 1 \<and>
           (isLoading (ui c) \<longrightarrow> inputMessage (ui c) = [])"
  shows "(isLoading (ui (chat_step userId c e)) \<longleftrightarrow> inflight (chat_step userId c e) \<noteq> []) \<and>
         length (inflight (chat_step userId c e)) \<le> 1 \<and>
         (isLoading (ui (chat_step userId c e)) \<longrightarrow> inputMessage (ui (chat_step userId c e)) = [])"
proof (cases e)
  case (Change v)
  with assms show ?thesis by simp
next
  case (Submit now)
  with assms show ?thesis
    by (auto simp: handleSubmit_begin_def append_message_def)
next
  case (Settle outcome now)
  with assms show ?thesis
    by (cases "inflight c") (auto simp: handleSubmit_resume_def append_message_def split: sum.splits)
qed

lemma reachable_invariant:
  "reachable userId c \<Longrightarrow>
     (isLoading (ui c) \<longleftrightarrow> inflight c \<noteq> []) \<and> length (inflight c) \<le> 1 \<and>
     (isLoading (ui c) \<longrightarrow> inputMessage (ui c) = [])"
proof (induction rule: reachable.induct)
  case reachable_init
  show ?case by (simp add: initial_chat_config_def initial_chat_state_def)
next
  case (reachable_step c e)
  then show ?case by (intro chat_step_invariant)
qed

lemma trim_Nil: "trim [] = []"
  by (simp add: trim_def)

text \<open>
  Claim C3. A non-blank utterance submitted in a state the panel can reach adds the user's
  message and after it exactly one message of the assistant: the reply when the call succeeds,
  the error message when it fails.
\<close>

theorem chat_turn_one_response:
  assumes "reachable userId c" and "trim (inputMessage (ui c)) \<noteq> []"
  shows "messages (ChatInterface_handleSubmit fetch userId t1 t2 (ui c)) =
           messages (ui c) @
             [userMessage (inputMessage (ui c)) t1,
              (case sendMessage fetch (inputMessage (ui c)) userId of
                 Inr data \<Rightarrow> aiMessage data t2
               | Inl err \<Rightarrow> errorMessage t2)] \<and>
         length (assistant_messages
                   (drop (length (messages (ui c)))
                      (messages (ChatInterface_handleSubmit fetch userId t1 t2 (ui c))))) = 1"
proof -
  from assms have idle: "\<not> isLoading (ui c)"
    using reachable_invariant [of userId c] trim_Nil by auto
  with assms(2) show ?thesis
    by (simp add: ChatInterface_handleSubmit_def handleSubmit_begin_def handleSubmit_resume_def
          append_message_def assistant_messages_def userMessage_def aiMessage_def
          errorMessage_def split: sum.splits)
qed

theorem chat_turn_one_response_witness:
  "reachable None (chat_step None initial_chat_config (Change ''Show my tasks'')) \<and>
   trim (inputMessage (ui (chat_step None initial_chat_config (Change ''Show my tasks'')))) \<noteq> [] \<and>
   messages (ChatInterface_handleSubmit (fetch_always (Response 200 (Some \<lparr>response = ''No tasks''\<rparr>)))
               None 5 9 (ui (chat_step None initial_chat_config (Change ''Show my tasks'')))) =
     [userMessage ''Show my tasks'' 5, aiMessage \<lparr>response = ''No tasks''\<rparr> 9] \<and>
   messages (ChatInterface_handleSubmit (fetch_always (Response 500 None))
               None 5 9 (ui (chat_step None initial_chat_config (Change ''Show my tasks'')))) =
     [userMessage ''Show my tasks'' 5, errorMessage 9]"
proof -
  have r: "reachable None (chat_step None initial_chat_config (Change ''Show my tasks''))"
    by (intro reachable_step reachable_init)
  have t: "trim (inputMessage (ui (chat_step None initial_chat_config (Change ''Show my tasks'')))) \<noteq> []"
    by (simp add: initial_chat_config_def initial_chat_state_def trim_def isWhiteSpace_def)
  show ?thesis
    using r t
      chat_turn_one_response [OF r t,
        of "fetch_always (Response 200 (Some \<lparr>response = ''No tasks''\<rparr>))" 5 9]
      chat_turn_one_response [OF r t, of "fetch_always (Response 500 None)" 5 9]
    by (simp add: initial_chat_config_def initial_chat_state_def sendMessage_def
          parse_response_def fetch_always_def response_ok_def)
qed




text \<open>
  Claim C5. (amended) The request of a chat turn carries the message and the user id
  \<open>userId || 'mock-user-uuid'\<close>: the id the host attached when that is a non-empty string,
  the placeholder when the host attached none or the empty string. Sessions whose ids are
  different non-empty strings send different requests.
\<close>

theorem chat_forwards_host_userId:
  assumes "handleSubmit_begin userId now st = (st', Some req)"
  shows "body req = ChatBody (inputMessage st) (forwarded_userId userId) \<and>
         (\<forall>u. userId = Some u \<and> u \<noteq> [] \<longrightarrow> forwarded_userId userId = u) \<and>
         (userId = None \<or> userId = Some [] \<longrightarrow> forwarded_userId userId = ''mock-user-uuid'') \<and>
         (\<forall>u v. u \<noteq> [] \<and> v \<noteq> [] \<and> u \<noteq> v \<longrightarrow>
            sendMessage_request (inputMessage st) (Some u) \<noteq>
            sendMessage_request (inputMessage st) (Some v))"
  using assms
  by (auto simp: handleSubmit_begin_def sendMessage_request_def forwarded_userId_def
        split: if_splits)

theorem chat_forwards_host_userId_witness:
  "handleSubmit_begin (Some ''user-42'') 7 (example_chat ''Show my tasks'' [] False) =
     (example_chat [] [userMessage ''Show my tasks'' 7] True,
      Some (sendMessage_request ''Show my tasks'' (Some ''user-42''))) \<and>
   body (sendMessage_request ''Show my tasks'' (Some ''user-42'')) =
     ChatBody ''Show my tasks'' ''user-42''"
  using chat_forwards_host_userId
          [of "Some ''user-42''" 7 "example_chat ''Show my tasks'' [] False"
              "example_chat [] [userMessage ''Show my tasks'' 7] True"
              "sendMessage_request ''Show my tasks'' (Some ''user-42'')"]
  by (simp add: handleSubmit_begin_def example_chat_def trim_def isWhiteSpace_def
        append_message_def)

text \<open>
  As the claim was written, the forwarded user id is always the one the host attached. With no
  id attached the request carries the placeholder, and the sessions of the two different ids
  \<open>''\<close> and \<open>'mock-user-uuid'\<close> send the same request.
\<close>

theorem chat_forwards_other_userId_counterexample:
  "snd (handleSubmit_begin None 7 (example_chat ''Show my tasks'' [] False)) =
     Some \<lparr>verb = POST, path = ''/api/chat'',
           body = ChatBody ''Show my tasks'' ''mock-user-uuid''\<rparr> \<and>
   snd (handleSubmit_begin (Some []) 7 (example_chat ''Show my tasks'' [] False)) =
     snd (handleSubmit_begin (Some ''mock-user-uuid'') 7 (example_chat ''Show my tasks'' [] False)) \<and>
   Some [] \<noteq> Some ''mock-user-uuid''"
  by (simp add: handleSubmit_begin_def example_chat_def trim_def isWhiteSpace_def
        sendMessage_request_def forwarded_userId_def)

lemma chat_step_appends:
  "\<exists>new. messages (ui (chat_step userId c e)) = messages (ui c) @ new \<and> length new \<le> 1"
proof (cases e)
  case (Change v)
  then show ?thesis by simp
next
  case (Submit now)
  then show ?thesis by (simp add: handleSubmit_begin_def append_message_def)
next
  case (Settle outcome now)
  then show ?thesis
    by (cases "inflight c") (auto simp: handleSubmit_resume_def append_message_def split: sum.splits)
qed

lemma chat_run_prefix:
  "prefix (messages (ui c)) (messages (ui (chat_run userId c evs)))"
proof (induction evs arbitrary: c)
  case Nil
  show ?case by (simp add: chat_run_def)
next
  case (Cons e evs)
  obtain new where "messages (ui (chat_step userId c e)) = messages (ui c) @ new"
    using chat_step_appends by blast
  then have "prefix (messages (ui c)) (messages (ui (chat_step userId c e)))"
    by simp
  moreover have "prefix (messages (ui (chat_step userId c e)))
                   (messages (ui (chat_run userId (chat_step userId c e) evs)))"
    by (rule Cons.IH)
  ultimately have "prefix (messages (ui c))
                     (messages (ui (chat_run userId (chat_step userId c e) evs)))"
    by (rule prefix_order.order_trans)
  then show ?case
    by (simp add: chat_run_def)
qed

text \<open>
  Claim C10. The transcript is append-only: over every run of the panel the old transcript is a
  prefix of the new one, every step appends at most one message at the end, and each update
  the handler makes appends exactly one.
\<close>

theorem chat_transcript_append_only:
  "prefix (messages (ui c)) (messages (ui (chat_run userId c evs))) \<and>
   (\<exists>new. messages (ui (chat_step userId c e)) = messages (ui c) @ new \<and> length new \<le> 1) \<and>
   (messages (fst (handleSubmit_begin userId now st)) = messages st \<or>
    messages (fst (handleSubmit_begin userId now st)) =
      messages st @ [userMessage (inputMessage st) now]) \<and>
   (\<exists>m. messages (handleSubmit_resume outcome now st) = messages st @ [m])"
  using chat_run_prefix [of c userId evs] chat_step_appends [of userId c e]
  by (auto simp: handleSubmit_begin_def handleSubmit_resume_def append_message_def
        split: sum.splits)

theorem chat_transcript_append_only_witness:
  "messages (ui (chat_run None initial_chat_config
     [Change ''hi'', Submit 1, Settle (Inl FetchRejected) 2])) =
     [userMessage ''hi'' 1, errorMessage 2] \<and>
   prefix (messages (ui (chat_run None initial_chat_config [Change ''hi'', Submit 1])))
     (messages (ui (chat_run None (chat_run None initial_chat_config [Change ''hi'', Submit 1])
        [Settle (Inl FetchRejected) 2])))"
  using chat_transcript_append_only
          [of "chat_run None initial_chat_config [Change ''hi'', Submit 1]" None
              "[Settle (Inl FetchRejected) 2]"]
  by (simp add: chat_run_def initial_chat_config_def initial_chat_state_def
        handleSubmit_begin_def handleSubmit_resume_def trim_def isWhiteSpace_def
        append_message_def)

section \<open>The interpreter\<close>

lemma takeWhile_stop: "\<not> P x \<Longrightarrow> takeWhile P (xs @ x # ys) = takeWhile P xs"
  by (induction xs) simp_all

lemma prefix_before: "prefix q (p @ c # r) \<Longrightarrow> c \<notin> set q \<Longrightarrow> prefix q p"
proof (induction q arbitrary: p)
  case Nil
  show ?case by simp
next
  case (Cons a q)
  show ?case
  proof (cases p)
    case Nil
    with Cons.prems show ?thesis by simp
  next
    case (Cons b p')
    with Cons.prems have "a = b" and "prefix q (p' @ c # r)" and "c \<notin> set q"
      by simp_all
    with Cons.IH [of p'] Cons show ?thesis by simp
  qed
qed

lemma hash_not_digit: "\<not> is_digit CHR ''#''"
  by (simp add: is_digit_def)

lemma number_at_before_hash: "number_at (p @ CHR ''#'' # r) = number_at p"
  by (simp add: number_at_def takeWhile_stop hash_not_digit)

lemma token_at_before_hash:
  assumes "p \<noteq> []"
  shows "token_at (p @ CHR ''#'' # r) = token_at p"
proof -
  obtain a p' where p: "p = a # p'" using assms by (cases p) auto
  have h: "prefix ''#'' (p @ CHR ''#'' # r) = prefix ''#'' p"
    by (simp add: p)
  have t: "prefix ''task '' (p @ CHR ''#'' # r) = prefix ''task '' p"
  proof
    assume "prefix ''task '' (p @ CHR ''#'' # r)"
    then show "prefix ''task '' p" by (rule prefix_before) simp
  next
    assume "prefix ''task '' p"
    then show "prefix ''task '' (p @ CHR ''#'' # r)" by (rule prefix_prefix)
  qed
  have d1: "drop 1 (p @ CHR ''#'' # r) = drop 1 p @ CHR ''#'' # r"
    by (simp add: p)
  have d5: "drop 5 (p @ CHR ''#'' # r) = drop 5 p @ CHR ''#'' # r" if "prefix ''task '' p"
  proof -
    from that have "length ''task '' \<le> length p" by (rule prefix_length_le)
    then show ?thesis by simp
  qed
  have n1: "number_at (drop 1 (p @ CHR ''#'' # r)) = number_at (drop 1 p)"
    unfolding d1 by (rule number_at_before_hash)
  have n5: "number_at (drop 5 (p @ CHR ''#'' # r)) = number_at (drop 5 p)" if "prefix ''task '' p"
    unfolding d5 [OF that] by (rule number_at_before_hash)
  show ?thesis
    unfolding token_at_def h t n1 using n5 by auto
qed

lemma explicit_id_token_before_hash:
  "explicit_id_token p = None \<Longrightarrow>
     explicit_id_token (p @ CHR ''#'' # r) = explicit_id_token (CHR ''#'' # r)"
proof (induction p)
  case Nil
  show ?case by simp
next
  case (Cons a p)
  from Cons.prems have none: "token_at (a # p) = None" and rest: "explicit_id_token p = None"
    by (auto split: option.splits)
  have "token_at ((a # p) @ CHR ''#'' # r) = None"
    using token_at_before_hash [of "a # p" r] none by simp
  then have "explicit_id_token ((a # p) @ CHR ''#'' # r) = explicit_id_token (p @ CHR ''#'' # r)"
    by simp
  with Cons.IH [OF rest] show ?case by simp
qed

lemma takeWhile_digits:
  assumes "\<forall>c\<in>set ds. is_digit c" and "post = [] \<or> \<not> is_digit (hd post)"
  shows "takeWhile is_digit (ds @ post) = ds"
  using assms by (cases post) (auto simp: takeWhile_append2 takeWhile_eq_all_conv [THEN iffD2])

lemma explicit_id_token_hash:
  assumes "ds \<noteq> []" and "\<forall>c\<in>set ds. is_digit c" and "post = [] \<or> \<not> is_digit (hd post)"
  shows "explicit_id_token (CHR ''#'' # ds @ post) = Some (digits_value ds)"
  using assms takeWhile_digits [OF assms(2,3)]
  by (simp add: token_at_def number_at_def)

lemma to_lower_cases:
  "to_lower c = c \<or>
   (c \<in> set ''ABCDEFGHIJKLMNOPQRSTUVWXYZ'' \<and> to_lower c \<in> set ''abcdefghijklmnopqrstuvwxyz'')"
  by (simp add: to_lower_def)

lemma upper_not_digit: "c \<in> set ''ABCDEFGHIJKLMNOPQRSTUVWXYZ'' \<Longrightarrow> \<not> is_digit c"
  unfolding set_simps insert_iff empty_iff
  by (elim disjE) (simp_all add: is_digit_def)

lemma lower_not_digit: "c \<in> set ''abcdefghijklmnopqrstuvwxyz'' \<Longrightarrow> \<not> is_digit c"
  unfolding set_simps insert_iff empty_iff
  by (elim disjE) (simp_all add: is_digit_def)

lemma to_lower_digit: "is_digit (to_lower c) = is_digit c"
  using to_lower_cases [of c] upper_not_digit [of c] lower_not_digit [of "to_lower c"]
  by metis

lemma to_lower_of_digit: "is_digit c \<Longrightarrow> to_lower c = c"
  using to_lower_cases [of c] upper_not_digit [of c] by metis

lemma lower_digits: "\<forall>c\<in>set ds. is_digit c \<Longrightarrow> lower ds = ds"
  by (simp add: lower_def map_idI to_lower_of_digit)

lemma lower_hash: "to_lower CHR ''#'' = CHR ''#''"
  by (simp add: to_lower_def)

text \<open>
  Claim C2. (amended) When the first explicit-id token of an utterance is \<open>#<digits>\<close> and the
  snapshot holds exactly one task of this id, CompleteTask reference resolution returns
  Resolved with this id, whatever text stands before and after the token and whatever the
  extraction of title and positional references would find.
\<close>

theorem explicit_id_resolves:
  assumes "explicit_id_token (lower pre) = None"
    and "ds \<noteq> []" and "\<forall>c\<in>set ds. is_digit c"
    and "post = [] \<or> \<not> is_digit (hd post)"
    and "length (filter (\<lambda>t. rec_id t = digits_value ds) snap) = 1"
  shows "resolve_utterance other (pre @ ''#'' @ ds @ post) snap = Inr (Resolved (digits_value ds))"
proof -
  have post': "lower post = [] \<or> \<not> is_digit (hd (lower post))"
    using assms(4) by (cases post) (auto simp: lower_def to_lower_digit)
  have "lower (pre @ ''#'' @ ds @ post) = lower pre @ CHR ''#'' # ds @ lower post"
    using lower_digits [OF assms(3)] by (simp add: lower_def lower_hash)
  then have "explicit_id_token (lower (pre @ ''#'' @ ds @ post)) = Some (digits_value ds)"
    using explicit_id_token_before_hash [OF assms(1)]
      explicit_id_token_hash [OF assms(2,3) post'] by simp
  then have ex: "extract_reference other (pre @ ''#'' @ ds @ post) = Inr (ExplicitId (digits_value ds))"
    by (simp add: extract_reference_def)
  obtain t where t: "filter (\<lambda>t. rec_id t = digits_value ds) snap = [t]"
    using assms(5) by (auto simp: length_Suc_conv)
  then have "t \<in> set (filter (\<lambda>t. rec_id t = digits_value ds) snap)" by simp
  then have "rec_id t = digits_value ds" by simp
  with t have "resolve (ExplicitId (digits_value ds)) snap = Resolved (digits_value ds)"
    by simp
  with ex show ?thesis by (simp add: resolve_utterance_def)
qed

theorem explicit_id_resolves_witness:
  "explicit_id_token (lower ''Mark task '') = None \<and>
   length (filter (\<lambda>t. rec_id t = digits_value ''7'')
             [example_record 7 ''Buy milk'', example_record 8 ''7'']) = 1 \<and>
   digits_value ''7'' = 7 \<and>
   resolve_utterance no_other_reference (''Mark task '' @ ''#'' @ ''7'' @ '' as done'')
     [example_record 7 ''Buy milk'', example_record 8 ''7''] = Inr (Resolved 7)"
proof -
  have a: "explicit_id_token (lower ''Mark task '') = None"
    by (simp add: lower_def to_lower_def token_at_def number_at_def)
  have b: "''7'' \<noteq> []" by simp
  have c: "\<forall>c\<in>set ''7''. is_digit c" by (simp add: is_digit_def)
  have d: "'' as done'' = [] \<or> \<not> is_digit (hd '' as done'')" by (simp add: is_digit_def)
  have v: "digits_value ''7'' = 7" by (simp add: digits_value_def digit_value_def)
  have e: "length (filter (\<lambda>t. rec_id t = digits_value ''7'')
             [example_record 7 ''Buy milk'', example_record 8 ''7'']) = 1"
    by (simp add: v example_record_def)
  show ?thesis
    using a e v explicit_id_resolves [OF a b c d e, of no_other_reference] by simp
qed

text \<open>
  As the claim was written, a snapshot that contains a task of the id is enough. With two
  entries of the id the resolver answers NotFound, and of two tokens in one utterance only the
  first is resolved.
\<close>

theorem explicit_id_resolves_counterexample:
  "1 \<in> set (map rec_id [example_record 1 ''Buy milk'', example_record 1 ''Call mom'']) \<and>
   resolve_utterance no_other_reference ''mark #1 as done''
     [example_record 1 ''Buy milk'', example_record 1 ''Call mom''] = Inr NotFound \<and>
   2 \<in> set (map rec_id [example_record 1 ''Buy milk'', example_record 2 ''Call mom'']) \<and>
   resolve_utterance no_other_reference ''mark #1 and #2 as done''
     [example_record 1 ''Buy milk'', example_record 2 ''Call mom''] = Inr (Resolved 1)"
  by (simp add: example_record_def resolve_utterance_def extract_reference_def lower_def
        to_lower_def token_at_def number_at_def is_digit_def digits_value_def digit_value_def)

text \<open>
  Claim C6. An utterance that matches no trigger phrase of the three categories is classified
  Unclear.
\<close>

theorem no_trigger_is_unclear:
  assumes "\<forall>t \<in> set (complete_rules rt) \<union> set (add_rules rt) \<union> set (list_rules rt).
             \<not> trigger_matches t (lower u)"
  shows "classify rt u = Unclear"
  using assms by (auto simp: classify_def matches_any_def list_ex_iff)

theorem no_trigger_is_unclear_witness:
  "\<not> trigger_matches [''finished''] (lower ''Hello there'') \<and>
   \<not> trigger_matches [''mark'', ''complete''] (lower ''Hello there'') \<and>
   \<not> matches_any (complete_rules example_rules @ add_rules example_rules @ list_rules example_rules)
       ''Hello there'' \<and>
   classify example_rules ''Hello there'' = Unclear"
proof -
  have n: "\<forall>t \<in> set (complete_rules example_rules) \<union> set (add_rules example_rules) \<union>
              set (list_rules example_rules). \<not> trigger_matches t (lower ''Hello there'')"
    by (simp add: example_rules_def lower_def to_lower_def)
  show ?thesis
    using n no_trigger_is_unclear [OF n]
    by (simp add: example_rules_def matches_any_def lower_def to_lower_def)
qed

end
